theory Spec2Isabelle
  imports Main
begin

section \<open>Strings and the two regular expressions of \<^verbatim>\<open>index.tsx\<close>\<close>

text \<open>
  A JavaScript string is modelled as a \<^typ>\<open>string\<close>: a list of code units, here the code
  units up to 0xFF. The character classes below are the ECMAScript ones restricted to that
  range.
\<close>

definition charCode :: "char \<Rightarrow> nat" where
  "charCode c = of_char c"

text \<open>\<^verbatim>\<open>\w\<close> (no \<^verbatim>\<open>u\<close> flag): \<^verbatim>\<open>[A-Za-z0-9_]\<close>.\<close>

definition isWordChar :: "char \<Rightarrow> bool" where
  "isWordChar c =
     (let n = charCode c
      in (48 \<le> n \<and> n \<le> 57) \<or> (65 \<le> n \<and> n \<le> 90) \<or> n = 95 \<or> (97 \<le> n \<and> n \<le> 122))"

text \<open>\<^verbatim>\<open>\s\<close> and the characters removed by \<^verbatim>\<open>trim()\<close>: TAB, LF, VT, FF, CR, space, NBSP.\<close>

definition isWhiteSpace :: "char \<Rightarrow> bool" where
  "isWhiteSpace c = (let n = charCode c in (9 \<le> n \<and> n \<le> 13) \<or> n = 32 \<or> n = 160)"

text \<open>The characters that \<^verbatim>\<open>.\<close> does not match (no \<^verbatim>\<open>s\<close> flag): LF and CR.\<close>

definition isLineTerminator :: "char \<Rightarrow> bool" where
  "isLineTerminator c = (let n = charCode c in n = 10 \<or> n = 13)"

text \<open>
  Case folding of the \<^verbatim>\<open>i\<close> flag (ECMAScript \<^verbatim>\<open>Canonicalize\<close>, upper-casing) and
  \<^verbatim>\<open>toLowerCase()\<close>, on the Latin-1 range: the letters a-z and the letters 0xE0-0xFE
  other than 0xF7 have their upper case 32 positions below.
\<close>

definition canonicalize :: "char \<Rightarrow> char" where
  "canonicalize c =
     (let n = charCode c
      in if (97 \<le> n \<and> n \<le> 122) \<or> (224 \<le> n \<and> n \<le> 254 \<and> n \<noteq> 247) then char_of (n - 32) else c)"

definition toLowerCaseChar :: "char \<Rightarrow> char" where
  "toLowerCaseChar c =
     (let n = charCode c
      in if (65 \<le> n \<and> n \<le> 90) \<or> (192 \<le> n \<and> n \<le> 222 \<and> n \<noteq> 215) then char_of (n + 32) else c)"

definition toLowerCase :: "string \<Rightarrow> string" where
  "toLowerCase s = map toLowerCaseChar s"

definition trim :: "string \<Rightarrow> string" where
  "trim s = rev (dropWhile isWhiteSpace (rev (dropWhile isWhiteSpace s)))"

text \<open>
  Matching a literal pattern at the head of the input under the \<^verbatim>\<open>i\<close> flag; the result is
  the input left after the literal.
\<close>

fun matchLiteralCI :: "string \<Rightarrow> string \<Rightarrow> string option" where
  "matchLiteralCI [] s = Some s"
| "matchLiteralCI (p # ps) [] = None"
| "matchLiteralCI (p # ps) (c # cs) =
     (if canonicalize p = canonicalize c then matchLiteralCI ps cs else None)"

text \<open>
  \<^verbatim>\<open>/Language: (\w+)/i\<close> tried at the head of the input: the pair of the matched text
  (\<^verbatim>\<open>langMatch[0]\<close>) and of the captured name (\<^verbatim>\<open>langMatch[1]\<close>). \<^verbatim>\<open>\w+\<close> is greedy and
  nothing follows it, so it takes the longest run of word characters.
\<close>

definition langMatchAt :: "string \<Rightarrow> (string \<times> string) option" where
  "langMatchAt s =
     (case matchLiteralCI ''Language: '' s of
        None \<Rightarrow> None
      | Some rest \<Rightarrow>
          (let w = takeWhile isWordChar rest
           in if w = [] then None else Some (take (length ''Language: '' + length w) s, w)))"

text \<open>\<^verbatim>\<open>accumulatedText.match(/Language: (\w+)/i)\<close>: the leftmost match.\<close>

fun langMatch :: "string \<Rightarrow> (string \<times> string) option" where
  "langMatch [] = None"
| "langMatch (c # cs) =
     (case langMatchAt (c # cs) of Some m \<Rightarrow> Some m | None \<Rightarrow> langMatch cs)"

text \<open>
  \<^verbatim>\<open>s.replace(pat, '')\<close> with a string pattern: the first occurrence of \<^verbatim>\<open>pat\<close> in
  \<^verbatim>\<open>s\<close> is removed, and \<^verbatim>\<open>s\<close> is returned as it is when there is none.
\<close>

fun replaceWithEmpty :: "string \<Rightarrow> string \<Rightarrow> string" where
  "replaceWithEmpty pat [] = []"
| "replaceWithEmpty pat (c # cs) =
     (if take (length pat) (c # cs) = pat then drop (length pat) (c # cs)
      else c # replaceWithEmpty pat cs)"

text \<open>
  \<^verbatim>\<open>/\[.*?\]\s/g\<close>. After an opening bracket, \<^verbatim>\<open>.*?\]\s\<close> extends lazily over characters
  that are not line terminators until a closing bracket followed by a white-space character
  is found; \<open>lazyBracket\<close> gives the number of characters it consumes.
\<close>

fun lazyBracket :: "string \<Rightarrow> nat option" where
  "lazyBracket [] = None"
| "lazyBracket [c] = None"
| "lazyBracket (c # d # cs) =
     (if c = CHR '']'' \<and> isWhiteSpace d then Some 2
      else if isLineTerminator c then None
      else map_option Suc (lazyBracket (d # cs)))"

text \<open>
  \<^verbatim>\<open>s.replace(/\[.*?\]\s/g, '')\<close>: every match, found from left to right, is removed; the
  first argument counts the characters of the current match still to be skipped.
\<close>

fun replaceBracketed :: "nat \<Rightarrow> string \<Rightarrow> string" where
  "replaceBracketed n [] = []"
| "replaceBracketed (Suc n) (c # cs) = replaceBracketed n cs"
| "replaceBracketed 0 (c # cs) =
     (if c = CHR ''[''
      then (case lazyBracket cs of
              Some k \<Rightarrow> replaceBracketed k cs
            | None \<Rightarrow> c # replaceBracketed 0 cs)
      else c # replaceBracketed 0 cs)"

section \<open>Response fragments\<close>

text \<open>
  A thrown value. \<open>Error\<close> is a value whose \<^verbatim>\<open>message\<close> property can be read (an object,
  or a primitive other than \<^verbatim>\<open>undefined\<close> and \<^verbatim>\<open>null\<close>), with that property when it is
  defined; \<open>Nullish\<close> is a thrown \<^verbatim>\<open>undefined\<close> or \<^verbatim>\<open>null\<close>, on which reading a property
  throws.
\<close>

datatype js_error = Error "string option" | Nullish

text \<open>The outcome of a call of an \<^verbatim>\<open>async\<close> function whose value is not used.\<close>

datatype promise = Fulfilled | Rejected js_error

record function_call_args =
  code :: "string option"

record function_call =
  args :: "function_call_args option"

text \<open>
  One chunk of the response stream, with the four properties \<open>process\<close> reads:
  \<^verbatim>\<open>text\<close>, \<^verbatim>\<open>functionCalls\<close>, \<^verbatim>\<open>executableCode\<close> and \<^verbatim>\<open>codeExecutionResult\<close>;
  \<open>None\<close> is \<^verbatim>\<open>undefined\<close>.
\<close>

record chunk =
  chunkText :: "string option"
  functionCalls :: "function_call list option"
  executableCode :: "string option"
  codeExecutionResult :: "string option"

text \<open>
  The response stream as the loop of \<open>process\<close> sees it: the chunks in order, each with the
  reading of \<^verbatim>\<open>state.isGenerating\<close> that the loop makes when the chunk arrives, and the
  error with which the stream fails after them, if it does.
\<close>

record response_stream =
  items :: "(bool \<times> chunk) list"
  failure :: "js_error option"

section \<open>The stream processor\<close>

text \<open>
  The children of the model message element. The error card carries the markup that is
  written, unescaped, into its body.
\<close>

datatype element =
    ThinkingIndicator
  | TextCardEl
  | ToolCallCardEl
  | CodeCardEl
  | ResultCardEl
  | NoOutputCardEl
  | ErrorCardEl string

text \<open>
  The code card: the language written into its header and into the class of its code
  element when the card is created, and the text content of the code element.
\<close>

record code_card =
  language :: string
  codeText :: string

text \<open>
  The fields of \<^verbatim>\<open>StreamProcessor\<close>. A card field holds what the card displays: the markup
  of the body of the text card, the text of the code element of the tool-call card, the code
  card, the text of the result block. \<open>modelMessage\<close> lists the children of the message
  element in document order, \<open>highlighted\<close> the elements handed to the highlighter.
\<close>

record stream_processor =
  modelMessage :: "element list"
  accumulatedText :: string
  detectedLanguage :: string
  elementsToHighlight :: "element list"
  textCard :: "string option"
  toolCallCard :: "string option"
  codeCard :: "code_card option"
  resultCard :: "string option"
  highlighted :: "element list"

definition new_StreamProcessor :: "element list \<Rightarrow> stream_processor" where
  "new_StreamProcessor mm =
     \<lparr>modelMessage = mm, accumulatedText = [], detectedLanguage = ''python'',
      elementsToHighlight = [], textCard = None, toolCallCard = None, codeCard = None,
      resultCard = None, highlighted = []\<rparr>"

text \<open>
  \<^verbatim>\<open>updateText\<close> is an \<^verbatim>\<open>async\<close> method: what it throws rejects the promise it returns.
  The renderer \<^verbatim>\<open>marked.parse\<close> is a parameter, \<open>Inl\<close> when it throws. The card is created
  before the renderer is called, and its body is written only when the renderer returned.
\<close>

definition updateText ::
  "(string \<Rightarrow> js_error + string) \<Rightarrow> string option \<Rightarrow> stream_processor \<Rightarrow> promise \<times> stream_processor"
where
  "updateText marked txt sp =
     (case txt of
        None \<Rightarrow> (Fulfilled, sp)
      | Some t \<Rightarrow>
          if t = [] then (Fulfilled, sp)
          else
            let sp1 = sp\<lparr>accumulatedText := accumulatedText sp @ t\<rparr>;
                sp2 = (case langMatch (accumulatedText sp1) of
                         None \<Rightarrow> sp1
                       | Some (m0, m1) \<Rightarrow>
                           sp1\<lparr>detectedLanguage := toLowerCase m1,
                               accumulatedText := trim (replaceWithEmpty m0 (accumulatedText sp1))\<rparr>);
                sp3 = (if textCard sp2 = None
                       then sp2\<lparr>textCard := Some [], modelMessage := modelMessage sp2 @ [TextCardEl]\<rparr>
                       else sp2)
            in (case marked (accumulatedText sp3) of
                  Inl e \<Rightarrow> (Rejected e, sp3)
                | Inr html \<Rightarrow> (Fulfilled, sp3\<lparr>textCard := Some html\<rparr>)))"

text \<open>\<^verbatim>\<open>call.args?.code || ''\<close>\<close>

definition callCode :: "function_call \<Rightarrow> string" where
  "callCode call =
     (case args call of
        None \<Rightarrow> []
      | Some a \<Rightarrow> (case code a of None \<Rightarrow> [] | Some c \<Rightarrow> c))"

definition updateToolCall :: "function_call list option \<Rightarrow> stream_processor \<Rightarrow> stream_processor" where
  "updateToolCall calls sp =
     (case calls of
        None \<Rightarrow> sp
      | Some cs \<Rightarrow>
          let joined = concat (map callCode cs);
              sp1 = (if toolCallCard sp = None
                     then sp\<lparr>toolCallCard := Some [],
                             modelMessage := modelMessage sp @ [ToolCallCardEl],
                             elementsToHighlight := elementsToHighlight sp @ [ToolCallCardEl]\<rparr>
                     else sp)
          in sp1\<lparr>toolCallCard := Some joined\<rparr>)"

definition updateExecutableCode :: "string option \<Rightarrow> stream_processor \<Rightarrow> stream_processor" where
  "updateExecutableCode ec sp =
     (case ec of
        None \<Rightarrow> sp
      | Some c \<Rightarrow>
          if c = [] then sp
          else
            let sp1 = (if toolCallCard sp = None then sp
                       else sp\<lparr>modelMessage := remove1 ToolCallCardEl (modelMessage sp),
                               toolCallCard := None\<rparr>);
                sp2 = (if codeCard sp1 = None
                       then sp1\<lparr>codeCard := Some \<lparr>language = detectedLanguage sp1, codeText = []\<rparr>,
                                modelMessage := modelMessage sp1 @ [CodeCardEl],
                                elementsToHighlight := elementsToHighlight sp1 @ [CodeCardEl]\<rparr>
                       else sp1)
            in sp2\<lparr>codeCard := map_option (\<lambda>cd. cd\<lparr>codeText := c\<rparr>) (codeCard sp2)\<rparr>)"

definition updateResult :: "string option \<Rightarrow> stream_processor \<Rightarrow> stream_processor" where
  "updateResult result sp =
     (case result of
        None \<Rightarrow> sp
      | Some r \<Rightarrow>
          let sp1 = (if resultCard sp = None
                     then sp\<lparr>resultCard := Some [], modelMessage := modelMessage sp @ [ResultCardEl]\<rparr>
                     else sp)
          in sp1\<lparr>resultCard := Some r\<rparr>)"

text \<open>
  The body of the loop of \<open>process\<close> for one chunk. The promise of \<open>updateText\<close> is not
  awaited and its outcome is dropped.
\<close>

definition applyChunk ::
  "(string \<Rightarrow> js_error + string) \<Rightarrow> chunk \<Rightarrow> stream_processor \<Rightarrow> stream_processor"
where
  "applyChunk marked c sp =
     updateResult (codeExecutionResult c)
       (updateExecutableCode (executableCode c)
         (updateToolCall (functionCalls c)
           (snd (updateText marked (chunkText c) sp))))"

text \<open>
  The \<^verbatim>\<open>for await\<close> loop: it ends with the stream, fails when the stream fails, and breaks
  at the first chunk at whose arrival \<^verbatim>\<open>state.isGenerating\<close> is false.
\<close>

fun readChunks ::
  "(string \<Rightarrow> js_error + string) \<Rightarrow> (bool \<times> chunk) list \<Rightarrow> js_error option \<Rightarrow> stream_processor
     \<Rightarrow> js_error + stream_processor"
where
  "readChunks marked [] None sp = Inr sp"
| "readChunks marked [] (Some e) sp = Inl e"
| "readChunks marked ((isGenerating, c) # rest) fl sp =
     (if \<not> isGenerating then Inr sp else readChunks marked rest fl (applyChunk marked c sp))"

text \<open>The highlighting pass and the placeholder that follow the loop.\<close>

definition finishProcess :: "stream_processor \<Rightarrow> stream_processor" where
  "finishProcess sp =
     (let sp1 = sp\<lparr>highlighted := highlighted sp @ elementsToHighlight sp\<rparr>
      in if modelMessage sp1 = [] then sp1\<lparr>modelMessage := [NoOutputCardEl]\<rparr> else sp1)"

definition process ::
  "(string \<Rightarrow> js_error + string) \<Rightarrow> response_stream \<Rightarrow> stream_processor \<Rightarrow> js_error + stream_processor"
where
  "process marked responseStream sp =
     (case readChunks marked (items responseStream) (failure responseStream) sp of
        Inl e \<Rightarrow> Inl e
      | Inr sp' \<Rightarrow> Inr (finishProcess sp'))"

section \<open>The turn handler\<close>

text \<open>
  \<^verbatim>\<open>(error.message || 'An unknown error occurred.').replace(/\[.*?\]\s/g, '')\<close>, as a
  function of \<^verbatim>\<open>error.message\<close>.
\<close>

definition errorBody :: "string option \<Rightarrow> string" where
  "errorBody message =
     replaceBracketed 0
       (case message of
          None \<Rightarrow> ''An unknown error occurred.''
        | Some m \<Rightarrow> if m = [] then ''An unknown error occurred.'' else m)"

text \<open>
  What \<open>handleFormSubmit\<close> leaves behind: the generation flag, whether the stop button is
  hidden, the children of the model message, and the stream processor of the turn when the
  \<^verbatim>\<open>try\<close> block ran to its end.
\<close>

record turn_view =
  isGenerating :: bool
  stopHidden :: bool
  messageChildren :: "element list"
  processor :: "stream_processor option"

text \<open>
  The \<^verbatim>\<open>try\<close>/\<^verbatim>\<open>catch\<close>/\<^verbatim>\<open>finally\<close> of \<open>handleFormSubmit\<close>. The second argument is the
  outcome of building the message parts and of \<^verbatim>\<open>sendMessageStream\<close>: an error, or the
  response stream. The thinking indicator is removed once the stream is there, and the
  processor starts on the emptied message element. The \<^verbatim>\<open>catch\<close> block empties the message
  element and then reads \<^verbatim>\<open>error.message\<close>: on a thrown \<^verbatim>\<open>undefined\<close> or \<^verbatim>\<open>null\<close> this
  read throws, no error card is appended, and the \<^verbatim>\<open>finally\<close> block still runs.
\<close>

definition handleFormSubmit ::
  "(string \<Rightarrow> js_error + string) \<Rightarrow> js_error + response_stream \<Rightarrow> turn_view"
where
  "handleFormSubmit marked response =
     (let tried = (case response of
                     Inl e \<Rightarrow> Inl e
                   | Inr responseStream \<Rightarrow> process marked responseStream (new_StreamProcessor []))
      in case tried of
           Inl e \<Rightarrow>
             (case e of
                Error message \<Rightarrow>
                  \<lparr>isGenerating = False, stopHidden = True,
                   messageChildren = [ErrorCardEl (errorBody message)], processor = None\<rparr>
              | Nullish \<Rightarrow>
                  \<lparr>isGenerating = False, stopHidden = True,
                   messageChildren = [], processor = None\<rparr>)
         | Inr sp \<Rightarrow>
             \<lparr>isGenerating = False, stopHidden = True,
              messageChildren = modelMessage sp, processor = Some sp\<rparr>)"

section \<open>Notions used in the statements\<close>

text \<open>JavaScript truthiness of an optional string: defined and not empty.\<close>

definition truthy :: "string option \<Rightarrow> bool" where
  "truthy v = (case v of None \<Rightarrow> False | Some s \<Rightarrow> s \<noteq> [])"

text \<open>Chunks that carry one property only.\<close>

definition textChunk :: "string \<Rightarrow> chunk" where
  "textChunk t =
     \<lparr>chunkText = Some t, functionCalls = None, executableCode = None, codeExecutionResult = None\<rparr>"

definition toolChunk :: "function_call list \<Rightarrow> chunk" where
  "toolChunk calls =
     \<lparr>chunkText = None, functionCalls = Some calls, executableCode = None, codeExecutionResult = None\<rparr>"

definition codeChunk :: "string \<Rightarrow> chunk" where
  "codeChunk c =
     \<lparr>chunkText = None, functionCalls = None, executableCode = Some c, codeExecutionResult = None\<rparr>"

definition resultChunk :: "string \<Rightarrow> chunk" where
  "resultChunk r =
     \<lparr>chunkText = None, functionCalls = None, executableCode = None, codeExecutionResult = Some r\<rparr>"

text \<open>
  A stream that ends normally and during which the generation flag is never cleared, and
  the state of the processor after the loop body has run on each chunk of a list.
\<close>

definition uninterrupted :: "chunk list \<Rightarrow> response_stream" where
  "uninterrupted cs = \<lparr>items = map (Pair True) cs, failure = None\<rparr>"

definition applyChunks ::
  "(string \<Rightarrow> js_error + string) \<Rightarrow> chunk list \<Rightarrow> stream_processor \<Rightarrow> stream_processor"
where
  "applyChunks marked cs sp = foldl (\<lambda>s c. applyChunk marked c s) sp cs"

text \<open>A tool invocation whose arguments carry the code \<open>c\<close>.\<close>

definition call :: "string \<Rightarrow> function_call" where
  "call c = \<lparr>args = Some \<lparr>code = Some c\<rparr>\<rparr>"

text \<open>
  The condition under which the specification expects a tool-call card, in its own words:
  some fragment carrying a non-empty tool-invocation list has been processed, and no
  fragment carrying executable code has been processed since.
\<close>

fun spec_toolCallCard_open :: "chunk list \<Rightarrow> bool" where
  "spec_toolCallCard_open [] = False"
| "spec_toolCallCard_open (c # cs) =
     (((case functionCalls c of None \<Rightarrow> False | Some calls \<Rightarrow> calls \<noteq> [])
        \<and> list_all (\<lambda>d. executableCode d = None) cs)
      \<or> spec_toolCallCard_open cs)"

text \<open>
  The accumulated text and the detected language after a non-empty delta \<open>t\<close> has been
  appended to the accumulated text \<open>acc\<close>, as lines 534 to 539 of the source compute them.
\<close>

definition textAfter :: "string \<Rightarrow> string \<Rightarrow> string" where
  "textAfter acc t =
     (case langMatch (acc @ t) of
        None \<Rightarrow> acc @ t
      | Some (m0, m1) \<Rightarrow> trim (replaceWithEmpty m0 (acc @ t)))"

definition languageAfter :: "string \<Rightarrow> string \<Rightarrow> string \<Rightarrow> string" where
  "languageAfter lang acc t =
     (case langMatch (acc @ t) of None \<Rightarrow> lang | Some (m0, m1) \<Rightarrow> toLowerCase m1)"

text \<open>The non-empty text deltas of a list of chunks, in order.\<close>

definition deltas :: "chunk list \<Rightarrow> string list" where
  "deltas cs = filter (\<lambda>t. t \<noteq> []) (List.map_filter chunkText cs)"

text \<open>
  The text that the specification expects to be rendered, in its own words: the
  concatenation of the deltas with the first occurrence of the marker removed.
\<close>

definition spec_marker_removed_once :: "string \<Rightarrow> string" where
  "spec_marker_removed_once s =
     (case langMatch s of None \<Rightarrow> s | Some (m0, m1) \<Rightarrow> replaceWithEmpty m0 s)"

text \<open>A renderer that throws on every input.\<close>

definition failingMarked :: "string \<Rightarrow> js_error + string" where
  "failingMarked s = Inl (Error (Some ''render failed''))"



text \<open>A text contains a closing bracket directly followed by a white-space character.\<close>

fun closesEarlier :: "string \<Rightarrow> bool" where
  "closesEarlier (c # d # cs) = ((c = CHR '']'' \<and> isWhiteSpace d) \<or> closesEarlier (d # cs))"
| "closesEarlier cs = False"

section \<open>Basic facts about the four channels\<close>

lemma readChunks_generating:
  "readChunks marked (map (Pair True) cs) None sp = Inr (applyChunks marked cs sp)"
  by (induction cs arbitrary: sp) (simp_all add: applyChunks_def)

lemma process_uninterrupted:
  "process marked (uninterrupted cs) sp = Inr (finishProcess (applyChunks marked cs sp))"
  by (simp add: process_def uninterrupted_def readChunks_generating)

lemma applyChunks_Nil: "applyChunks marked [] sp = sp"
  by (simp add: applyChunks_def)

lemma applyChunks_snoc:
  "applyChunks marked (cs @ [c]) sp = applyChunk marked c (applyChunks marked cs sp)"
  by (simp add: applyChunks_def)

lemma finishProcess_cards:
  "textCard (finishProcess sp) = textCard sp"
  "toolCallCard (finishProcess sp) = toolCallCard sp"
  "codeCard (finishProcess sp) = codeCard sp"
  "resultCard (finishProcess sp) = resultCard sp"
  "accumulatedText (finishProcess sp) = accumulatedText sp"
  "detectedLanguage (finishProcess sp) = detectedLanguage sp"
  by (simp_all add: finishProcess_def Let_def)

lemma updateText_other_cards:
  "toolCallCard (snd (updateText marked t sp)) = toolCallCard sp"
  "codeCard (snd (updateText marked t sp)) = codeCard sp"
  "resultCard (snd (updateText marked t sp)) = resultCard sp"
  by (auto simp: updateText_def Let_def split: option.splits sum.splits prod.splits)

lemma updateToolCall_toolCallCard:
  "toolCallCard (updateToolCall calls sp) =
     (case calls of None \<Rightarrow> toolCallCard sp | Some cs \<Rightarrow> Some (concat (map callCode cs)))"
  by (simp add: updateToolCall_def Let_def split: option.splits)

lemma updateToolCall_other_cards:
  "textCard (updateToolCall calls sp) = textCard sp"
  "codeCard (updateToolCall calls sp) = codeCard sp"
  "resultCard (updateToolCall calls sp) = resultCard sp"
  "accumulatedText (updateToolCall calls sp) = accumulatedText sp"
  "detectedLanguage (updateToolCall calls sp) = detectedLanguage sp"
  by (simp_all add: updateToolCall_def Let_def split: option.splits)

lemma updateExecutableCode_toolCallCard:
  "toolCallCard (updateExecutableCode ec sp) = (if truthy ec then None else toolCallCard sp)"
  by (auto simp: updateExecutableCode_def truthy_def Let_def split: option.splits)

lemma updateExecutableCode_codeCard:
  "codeCard (updateExecutableCode ec sp) =
     (if truthy ec
      then Some \<lparr>language = (case codeCard sp of None \<Rightarrow> detectedLanguage sp | Some cd \<Rightarrow> language cd),
                 codeText = the ec\<rparr>
      else codeCard sp)"
  by (auto simp: updateExecutableCode_def truthy_def Let_def split: option.splits)

lemma updateExecutableCode_other_cards:
  "textCard (updateExecutableCode ec sp) = textCard sp"
  "resultCard (updateExecutableCode ec sp) = resultCard sp"
  "accumulatedText (updateExecutableCode ec sp) = accumulatedText sp"
  "detectedLanguage (updateExecutableCode ec sp) = detectedLanguage sp"
  by (simp_all add: updateExecutableCode_def Let_def split: option.splits)

lemma updateResult_resultCard:
  "resultCard (updateResult r sp) = (case r of None \<Rightarrow> resultCard sp | Some v \<Rightarrow> Some v)"
  by (simp add: updateResult_def Let_def split: option.splits)

lemma updateResult_modelMessage:
  "modelMessage (updateResult (Some r) sp) =
     (if resultCard sp = None then modelMessage sp @ [ResultCardEl] else modelMessage sp)"
  by (simp add: updateResult_def Let_def)

lemma updateResult_other_cards:
  "textCard (updateResult r sp) = textCard sp"
  "toolCallCard (updateResult r sp) = toolCallCard sp"
  "codeCard (updateResult r sp) = codeCard sp"
  "accumulatedText (updateResult r sp) = accumulatedText sp"
  "detectedLanguage (updateResult r sp) = detectedLanguage sp"
  by (simp_all add: updateResult_def Let_def split: option.splits)

lemma applyChunk_toolCallCard:
  "toolCallCard (applyChunk marked c sp) =
     (if truthy (executableCode c) then None
      else case functionCalls c of
             None \<Rightarrow> toolCallCard sp
           | Some calls \<Rightarrow> Some (concat (map callCode calls)))"
  by (simp add: applyChunk_def updateResult_other_cards updateExecutableCode_toolCallCard
      updateToolCall_toolCallCard updateText_other_cards split: option.splits)

lemma applyChunk_codeCard_present:
  "codeCard (applyChunk marked c sp) \<noteq> None \<longleftrightarrow> truthy (executableCode c) \<or> codeCard sp \<noteq> None"
  by (simp add: applyChunk_def updateResult_other_cards updateExecutableCode_codeCard
      updateToolCall_other_cards updateText_other_cards)

lemma applyChunk_resultCard:
  "resultCard (applyChunk marked c sp) =
     (case codeExecutionResult c of None \<Rightarrow> resultCard sp | Some v \<Rightarrow> Some v)"
  by (simp add: applyChunk_def updateResult_resultCard updateExecutableCode_other_cards
      updateToolCall_other_cards updateText_other_cards split: option.splits)

section \<open>The result channel\<close>

lemma applyChunks_resultCard:
  "resultCard (applyChunks marked cs sp) =
     (if List.map_filter codeExecutionResult cs = [] then resultCard sp
      else Some (last (List.map_filter codeExecutionResult cs)))"
proof (induction cs rule: rev_induct)
  case Nil
  show ?case by (simp add: applyChunks_Nil List.map_filter_simps)
next
  case (snoc x xs)
  have app: "List.map_filter codeExecutionResult (xs @ [x]) =
      List.map_filter codeExecutionResult xs
        @ (case codeExecutionResult x of None \<Rightarrow> [] | Some v \<Rightarrow> [v])"
    by (simp add: List.map_filter_def split: option.splits)
  show ?case
    by (cases "codeExecutionResult x")
      (simp_all add: app applyChunks_snoc applyChunk_resultCard snoc.IH)
qed

text \<open>
  C6. A result payload that is defined, the empty string included, gives a result card whose
  body is the payload as it is: the card is created and appended to the message when there
  was none, and an undefined payload changes nothing. After a whole stream the result card
  shows the last defined payload, and there is no result card exactly when no chunk carried
  a defined payload; so an empty payload (card present, body empty) differs from no payload
  (no card).
\<close>

theorem result_card_for_defined_payload:
  "resultCard (updateResult (Some r) sp) = Some r
   \<and> modelMessage (updateResult (Some r) sp) =
       (if resultCard sp = None then modelMessage sp @ [ResultCardEl] else modelMessage sp)
   \<and> updateResult None sp = sp
   \<and> process marked (uninterrupted cs) (new_StreamProcessor mm) =
       Inr (finishProcess (applyChunks marked cs (new_StreamProcessor mm)))
   \<and> resultCard (finishProcess (applyChunks marked cs (new_StreamProcessor mm))) =
       (if List.map_filter codeExecutionResult cs = [] then None
        else Some (last (List.map_filter codeExecutionResult cs)))"
  by (simp add: updateResult_resultCard updateResult_modelMessage process_uninterrupted
      finishProcess_cards applyChunks_resultCard)
    (simp add: updateResult_def new_StreamProcessor_def)

theorem result_card_for_defined_payload_witness:
  "resultCard (updateResult (Some []) (new_StreamProcessor [])) = Some []
   \<and> modelMessage (updateResult (Some []) (new_StreamProcessor [])) = [ResultCardEl]
   \<and> resultCard (finishProcess (applyChunks Inr [resultChunk []] (new_StreamProcessor []))) = Some []
   \<and> resultCard (finishProcess (applyChunks Inr [] (new_StreamProcessor []))) = None"
proof -
  have a: "resultCard (new_StreamProcessor []) = None" "modelMessage (new_StreamProcessor []) = []"
    by (simp_all add: new_StreamProcessor_def)
  have b: "List.map_filter codeExecutionResult [resultChunk []] = [[]]"
    "List.map_filter codeExecutionResult ([] :: chunk list) = []"
    by (simp_all add: List.map_filter_simps resultChunk_def)
  show ?thesis
    using result_card_for_defined_payload [of "[]" "new_StreamProcessor []" Inr "[resultChunk []]" "[]"]
      result_card_for_defined_payload [of "[]" "new_StreamProcessor []" Inr "[]" "[]"]
    by (simp only: a b) simp
qed

section \<open>The executable-code channel\<close>

lemma updateExecutableCode_idem:
  "updateExecutableCode ec (updateExecutableCode ec sp) = updateExecutableCode ec sp"
proof (cases "truthy ec")
  case False
  then show ?thesis
    by (cases ec) (simp_all add: updateExecutableCode_def truthy_def)
next
  case True
  then obtain c where ec: "ec = Some c" and c: "c \<noteq> []"
    by (cases ec) (auto simp: truthy_def)
  let ?sp = "updateExecutableCode ec sp"
  have t: "toolCallCard ?sp = None"
    using True by (simp add: updateExecutableCode_toolCallCard)
  have k: "codeCard ?sp \<noteq> None"
    using True by (simp add: updateExecutableCode_codeCard)
  have "updateExecutableCode (Some c) ?sp =
      ?sp\<lparr>codeCard := map_option (\<lambda>cd. cd\<lparr>codeText := c\<rparr>) (codeCard ?sp)\<rparr>"
    using t k c by (auto simp: updateExecutableCode_def [of "Some c" ?sp] Let_def)
  also have "\<dots> = ?sp"
    using True ec by (simp add: updateExecutableCode_codeCard)
  finally show ?thesis using ec by simp
qed

lemma updateExecutableCode_codeText:
  "c \<noteq> [] \<Longrightarrow> map_option codeText (codeCard (updateExecutableCode (Some c) sp)) = Some c"
  by (auto simp: updateExecutableCode_def Let_def split: option.splits)

lemma applyChunk_codeChunk:
  "applyChunk marked (codeChunk c) sp = updateExecutableCode (Some c) sp"
  by (simp add: applyChunk_def codeChunk_def updateText_def updateToolCall_def updateResult_def)

text \<open>
  C8. Applying the same executable-code payload twice in succession leaves the processor,
  and so the code card, as one application does, for the method and for a chunk that carries
  the payload; the code element shows the payload itself, whatever it showed before.
\<close>

theorem executableCode_replay:
  "updateExecutableCode ec (updateExecutableCode ec sp) = updateExecutableCode ec sp
   \<and> applyChunk marked (codeChunk c) (applyChunk marked (codeChunk c) sp) =
       applyChunk marked (codeChunk c) sp
   \<and> map_option codeText (codeCard (updateExecutableCode (Some (x # xs)) sp)) = Some (x # xs)"
  by (simp add: updateExecutableCode_idem applyChunk_codeChunk updateExecutableCode_codeText)

theorem executableCode_replay_witness:
  "updateExecutableCode (Some ''print(1)'')
     (updateExecutableCode (Some ''print(1)'') (new_StreamProcessor [])) =
   updateExecutableCode (Some ''print(1)'') (new_StreamProcessor [])
   \<and> map_option codeText
        (codeCard (updateExecutableCode (Some ''print(1)'') (new_StreamProcessor []))) =
       Some ''print(1)''"
  using executableCode_replay [where ec = "Some ''print(1)''" and sp = "new_StreamProcessor []"
      and x = "CHR ''p''" and xs = "''rint(1)''"]
  by blast

section \<open>The text channel\<close>

lemma updateText_empty: "updateText marked (Some []) sp = (Fulfilled, sp)"
  by (simp add: updateText_def)

lemma updateText_textCard_iff:
  "textCard sp = None \<Longrightarrow> textCard (snd (updateText marked t sp)) \<noteq> None \<longleftrightarrow> truthy t"
  by (auto simp: updateText_def truthy_def Let_def split: option.splits sum.splits prod.splits)

text \<open>
  C10. A text delta that is present but empty is ignored by the text channel: the call
  returns the processor as it was (no card, the accumulated text unchanged, nothing
  rendered), and so does the loop body on a chunk that carries only this delta. Starting
  without a text card, the call creates one exactly when the delta is defined and not empty.
\<close>

theorem empty_text_delta_ignored:
  "updateText marked (Some []) sp = (Fulfilled, sp)
   \<and> applyChunk marked (textChunk []) sp = sp
   \<and> (textCard sp = None \<longrightarrow>
        (textCard (snd (updateText marked t sp)) \<noteq> None \<longleftrightarrow> truthy t))"
  using updateText_textCard_iff [of sp marked t]
  by (simp add: updateText_empty applyChunk_def textChunk_def updateToolCall_def
      updateExecutableCode_def updateResult_def)

theorem empty_text_delta_ignored_witness:
  "textCard (new_StreamProcessor []) = None
   \<and> applyChunk Inr (textChunk []) (new_StreamProcessor []) = new_StreamProcessor []
   \<and> textCard (snd (updateText Inr (Some []) (new_StreamProcessor []))) = None
   \<and> textCard (snd (updateText Inr (Some ''a'') (new_StreamProcessor []))) \<noteq> None"
proof -
  have a: "textCard (new_StreamProcessor []) = None"
    by (simp add: new_StreamProcessor_def)
  have b: "\<not> truthy (Some [])" "truthy (Some ''a'')"
    by (simp_all add: truthy_def)
  show ?thesis
    using a b empty_text_delta_ignored [of Inr "new_StreamProcessor []" "Some []"]
      empty_text_delta_ignored [of Inr "new_StreamProcessor []" "Some ''a''"]
    by metis
qed

section \<open>Stopping\<close>








section \<open>The tool-call card and the code card\<close>

lemma toolCallCard_applyChunks:
  "toolCallCard (applyChunks marked cs sp) \<noteq> None \<longleftrightarrow>
     (\<exists>pre c post. cs = pre @ c # post \<and> functionCalls c \<noteq> None \<and> \<not> truthy (executableCode c)
        \<and> (\<forall>d\<in>set post. \<not> truthy (executableCode d)))
     \<or> (toolCallCard sp \<noteq> None \<and> (\<forall>d\<in>set cs. \<not> truthy (executableCode d)))"
  (is "?L cs \<longleftrightarrow> ?E cs \<or> ?K cs")
proof (induction cs rule: rev_induct)
  case Nil
  show ?case by (simp add: applyChunks_Nil)
next
  case (snoc x xs)
  show ?case
  proof (cases "truthy (executableCode x)")
    case True
    have "\<not> ?E (xs @ [x])"
    proof
      assume "?E (xs @ [x])"
      then obtain pre c post where d: "xs @ [x] = pre @ c # post"
        and c: "\<not> truthy (executableCode c)" and p: "\<forall>d\<in>set post. \<not> truthy (executableCode d)"
        by blast
      from d have "x = last (c # post)" by (metis last_appendR last_snoc list.distinct(1))
      then have "x = c \<or> x \<in> set post" by (cases post rule: rev_cases) auto
      with c p True show False by blast
    qed
    with True show ?thesis by (simp add: applyChunks_snoc applyChunk_toolCallCard)
  next
    case False
    note nocode = this
    show ?thesis
    proof (cases "functionCalls x")
      case (Some calls)
      have "xs @ [x] = xs @ x # []" by simp
      with Some nocode have "?E (xs @ [x])" by (metis empty_iff list.set(1) option.distinct(1))
      with Some nocode show ?thesis by (simp add: applyChunks_snoc applyChunk_toolCallCard)
    next
      case None
      have E: "?E (xs @ [x]) \<longleftrightarrow> ?E xs"
      proof
        assume "?E (xs @ [x])"
        then obtain pre c post where d: "xs @ [x] = pre @ c # post"
          and f: "functionCalls c \<noteq> None"
          and c: "\<not> truthy (executableCode c)" and p: "\<forall>d\<in>set post. \<not> truthy (executableCode d)"
          by blast
        show "?E xs"
        proof (cases post rule: rev_cases)
          case Nil
          with d have "x = c" by simp
          with f None show ?thesis by simp
        next
          case (snoc post' y)
          with d have "xs = pre @ c # post'" by simp
          moreover from snoc p have "\<forall>d\<in>set post'. \<not> truthy (executableCode d)" by simp
          ultimately show ?thesis using f c by blast
        qed
      next
        assume "?E xs"
        then obtain pre c post where d: "xs = pre @ c # post"
          and f: "functionCalls c \<noteq> None"
          and c: "\<not> truthy (executableCode c)" and p: "\<forall>d\<in>set post. \<not> truthy (executableCode d)"
          by blast
        from d have "xs @ [x] = pre @ c # (post @ [x])" by simp
        moreover from p nocode have "\<forall>d\<in>set (post @ [x]). \<not> truthy (executableCode d)" by simp
        ultimately show "?E (xs @ [x])" using f c by blast
      qed
      have K: "?K (xs @ [x]) \<longleftrightarrow> ?K xs" using nocode by auto
      have "?L (xs @ [x]) \<longleftrightarrow> ?L xs"
        using None nocode by (simp add: applyChunks_snoc applyChunk_toolCallCard)
      with snoc.IH E K show ?thesis by blast
    qed
  qed
qed

lemma codeCard_applyChunks:
  "codeCard (applyChunks marked cs sp) \<noteq> None \<longleftrightarrow>
     (\<exists>c\<in>set cs. truthy (executableCode c)) \<or> codeCard sp \<noteq> None"
proof (induction cs rule: rev_induct)
  case Nil
  show ?case by (simp add: applyChunks_Nil)
next
  case (snoc x xs)
  have "codeCard (applyChunks marked (xs @ [x]) sp) \<noteq> None \<longleftrightarrow>
      truthy (executableCode x) \<or> codeCard (applyChunks marked xs sp) \<noteq> None"
    by (simp only: applyChunks_snoc applyChunk_codeCard_present)
  with snoc.IH show ?case by auto
qed

lemma new_StreamProcessor_cards:
  "textCard (new_StreamProcessor mm) = None"
  "toolCallCard (new_StreamProcessor mm) = None"
  "codeCard (new_StreamProcessor mm) = None"
  "resultCard (new_StreamProcessor mm) = None"
  "accumulatedText (new_StreamProcessor mm) = []"
  "detectedLanguage (new_StreamProcessor mm) = ''python''"
  by (simp_all add: new_StreamProcessor_def)

text \<open>
  C2, as stated, fails: a chunk whose invocation list is present but empty opens the
  tool-call card, since \<^verbatim>\<open>updateToolCall\<close> only tests that the list is defined.
\<close>

theorem tool_call_card_counterexample:
  "process Inr (uninterrupted [toolChunk []]) (new_StreamProcessor []) =
     Inr \<lparr>modelMessage = [ToolCallCardEl], accumulatedText = [], detectedLanguage = ''python'',
          elementsToHighlight = [ToolCallCardEl], textCard = None, toolCallCard = Some [],
          codeCard = None, resultCard = None, highlighted = [ToolCallCardEl]\<rparr>
   \<and> \<not> spec_toolCallCard_open [toolChunk []]"
  by code_simp

text \<open>
  C2, amended. After a whole stream the tool-call card exists if and only if some chunk
  carried a tool-invocation list (empty or not) and neither that chunk nor any later chunk
  carried non-empty executable code.
\<close>

theorem tool_call_card_open_iff:
  "process marked (uninterrupted cs) (new_StreamProcessor mm) =
     Inr (finishProcess (applyChunks marked cs (new_StreamProcessor mm)))
   \<and> (toolCallCard (finishProcess (applyChunks marked cs (new_StreamProcessor mm))) \<noteq> None \<longleftrightarrow>
        (\<exists>pre c post. cs = pre @ c # post \<and> functionCalls c \<noteq> None
           \<and> \<not> truthy (executableCode c) \<and> (\<forall>d\<in>set post. \<not> truthy (executableCode d))))"
  by (simp only: process_uninterrupted finishProcess_cards toolCallCard_applyChunks
      new_StreamProcessor_cards) simp

theorem tool_call_card_open_iff_witness:
  "toolCallCard (finishProcess (applyChunks Inr [toolChunk [call ''y''], textChunk ''z'']
      (new_StreamProcessor []))) \<noteq> None
   \<and> toolCallCard (finishProcess (applyChunks Inr [toolChunk [call ''y''], codeChunk ''z'']
      (new_StreamProcessor []))) = None"
proof -
  have a: "[toolChunk [call ''y''], textChunk ''z''] = [] @ toolChunk [call ''y''] # [textChunk ''z'']"
    by simp
  have b: "functionCalls (toolChunk [call ''y'']) \<noteq> None"
    "\<not> truthy (executableCode (toolChunk [call ''y'']))"
    "\<forall>d\<in>set [textChunk ''z'']. \<not> truthy (executableCode d)"
    by (simp_all add: toolChunk_def textChunk_def truthy_def)
  have c: "\<not> (\<exists>pre c post. [toolChunk [call ''y''], codeChunk ''z''] = pre @ c # post
      \<and> functionCalls c \<noteq> None \<and> \<not> truthy (executableCode c)
      \<and> (\<forall>d\<in>set post. \<not> truthy (executableCode d)))"
  proof
    assume "\<exists>pre c post. [toolChunk [call ''y''], codeChunk ''z''] = pre @ c # post
      \<and> functionCalls c \<noteq> None \<and> \<not> truthy (executableCode c)
      \<and> (\<forall>d\<in>set post. \<not> truthy (executableCode d))"
    then obtain pre c post where d: "[toolChunk [call ''y''], codeChunk ''z''] = pre @ c # post"
      and f: "functionCalls c \<noteq> None" and e: "\<not> truthy (executableCode c)"
      and p: "\<forall>d\<in>set post. \<not> truthy (executableCode d)"
      by blast
    from d have "codeChunk ''z'' = last (c # post)"
      by (metis last.simps last_appendR list.distinct(1))
    then have "codeChunk ''z'' = c \<or> codeChunk ''z'' \<in> set post"
      by (cases post rule: rev_cases) auto
    with e p have "\<not> truthy (executableCode (codeChunk ''z''))" by auto
    then show False by (simp add: codeChunk_def truthy_def)
  qed
  show ?thesis
    using tool_call_card_open_iff [of Inr "[toolChunk [call ''y''], textChunk ''z'']" "[]"]
      tool_call_card_open_iff [of Inr "[toolChunk [call ''y''], codeChunk ''z'']" "[]"]
      a b c
    by blast
qed

text \<open>
  C3, as stated, fails: a tool invocation that arrives after executable code opens a
  tool-call card beside the code card, and both are there when the stream ends.
\<close>

theorem both_cards_counterexample:
  "process Inr (uninterrupted [codeChunk ''x'', toolChunk [call ''y'']]) (new_StreamProcessor []) =
     Inr \<lparr>modelMessage = [CodeCardEl, ToolCallCardEl], accumulatedText = [],
          detectedLanguage = ''python'', elementsToHighlight = [CodeCardEl, ToolCallCardEl],
          textCard = None, toolCallCard = Some ''y'',
          codeCard = Some \<lparr>language = ''python'', codeText = ''x''\<rparr>, resultCard = None,
          highlighted = [CodeCardEl, ToolCallCardEl]\<rparr>"
  by code_simp

lemma applyChunk_retires:
  "truthy (executableCode c) \<Longrightarrow>
     toolCallCard (applyChunk marked c sp) = None \<and> codeCard (applyChunk marked c sp) \<noteq> None"
  using applyChunk_codeCard_present [of marked c sp]
  by (simp add: applyChunk_toolCallCard)

text \<open>
  C3, amended. A chunk with non-empty executable code retires the tool-call card: after the
  loop body has run on it the code card is present and the tool-call card is not. In the
  final state both cards are present exactly when some chunk carried non-empty executable
  code and some chunk carrying a tool-invocation list has no non-empty executable code in it
  or after it.
\<close>

theorem code_retires_tool_call_card:
  "(truthy (executableCode c) \<longrightarrow>
      toolCallCard (applyChunk marked c sp) = None \<and> codeCard (applyChunk marked c sp) \<noteq> None)
   \<and> process marked (uninterrupted cs) (new_StreamProcessor mm) =
       Inr (finishProcess (applyChunks marked cs (new_StreamProcessor mm)))
   \<and> (toolCallCard (finishProcess (applyChunks marked cs (new_StreamProcessor mm))) \<noteq> None
        \<and> codeCard (finishProcess (applyChunks marked cs (new_StreamProcessor mm))) \<noteq> None \<longleftrightarrow>
      (\<exists>c\<in>set cs. truthy (executableCode c))
        \<and> (\<exists>pre c post. cs = pre @ c # post \<and> functionCalls c \<noteq> None
             \<and> \<not> truthy (executableCode c) \<and> (\<forall>d\<in>set post. \<not> truthy (executableCode d))))"
  using applyChunk_retires [of c marked sp]
  by (simp only: process_uninterrupted finishProcess_cards toolCallCard_applyChunks
      codeCard_applyChunks new_StreamProcessor_cards) auto

theorem code_retires_tool_call_card_witness:
  "truthy (executableCode (codeChunk ''x''))
   \<and> toolCallCard (applyChunk Inr (codeChunk ''x'')
        (applyChunk Inr (toolChunk [call ''y'']) (new_StreamProcessor []))) = None
   \<and> codeCard (applyChunk Inr (codeChunk ''x'')
        (applyChunk Inr (toolChunk [call ''y'']) (new_StreamProcessor []))) \<noteq> None"
proof -
  have a: "truthy (executableCode (codeChunk ''x''))"
    by (simp add: codeChunk_def truthy_def)
  show ?thesis
    using a code_retires_tool_call_card [of "codeChunk ''x''" Inr
        "applyChunk Inr (toolChunk [call ''y'']) (new_StreamProcessor [])"]
    by blast
qed

section \<open>The language marker and the rendered text\<close>

lemma matchLiteralCI_append:
  "matchLiteralCI p a = Some r \<Longrightarrow> matchLiteralCI p (a @ b) = Some (r @ b)"
  by (induction p a rule: matchLiteralCI.induct) (auto split: if_splits)

lemma takeWhile_append_nonempty:
  "takeWhile P r \<noteq> [] \<Longrightarrow> takeWhile P (r @ b) \<noteq> []"
  by (cases r) (auto split: if_splits)

lemma langMatchAt_append:
  "langMatchAt a \<noteq> None \<Longrightarrow> langMatchAt (a @ b) \<noteq> None"
proof -
  assume h: "langMatchAt a \<noteq> None"
  then obtain r where r: "matchLiteralCI ''Language: '' a = Some r"
    by (auto simp: langMatchAt_def split: option.splits)
  with h have w: "takeWhile isWordChar r \<noteq> []"
    by (auto simp: langMatchAt_def Let_def split: if_splits)
  from r have "matchLiteralCI ''Language: '' (a @ b) = Some (r @ b)"
    by (rule matchLiteralCI_append)
  moreover from w have "takeWhile isWordChar (r @ b) \<noteq> []"
    by (rule takeWhile_append_nonempty)
  ultimately show ?thesis
    by (simp add: langMatchAt_def Let_def)
qed

lemma langMatch_append_None:
  "langMatch (a @ b) = None \<Longrightarrow> langMatch a = None"
proof (induction a)
  case Nil
  show ?case by simp
next
  case (Cons c cs)
  from Cons.prems have at: "langMatchAt ((c # cs) @ b) = None" and rest: "langMatch (cs @ b) = None"
    by (auto split: option.splits)
  from at have "langMatchAt (c # cs) = None"
    using langMatchAt_append [of "c # cs" b] by blast
  moreover from rest have "langMatch cs = None" by (rule Cons.IH)
  ultimately show ?case by simp
qed

lemma updateText_accumulatedText:
  "accumulatedText (snd (updateText marked t sp)) =
     (case t of None \<Rightarrow> accumulatedText sp
      | Some d \<Rightarrow> if d = [] then accumulatedText sp else textAfter (accumulatedText sp) d)"
  by (auto simp: updateText_def textAfter_def Let_def split: option.splits sum.splits prod.splits)

lemma updateText_detectedLanguage:
  "detectedLanguage (snd (updateText marked t sp)) =
     (case t of None \<Rightarrow> detectedLanguage sp
      | Some d \<Rightarrow> if d = [] then detectedLanguage sp
                  else languageAfter (detectedLanguage sp) (accumulatedText sp) d)"
  by (auto simp: updateText_def languageAfter_def Let_def split: option.splits sum.splits prod.splits)

lemma updateText_textCard_total:
  "textCard (snd (updateText (\<lambda>s. Inr (md s)) t sp)) =
     (case t of None \<Rightarrow> textCard sp
      | Some d \<Rightarrow> if d = [] then textCard sp else Some (md (textAfter (accumulatedText sp) d)))"
  by (auto simp: updateText_def textAfter_def Let_def split: option.splits prod.splits)

lemma applyChunk_accumulatedText:
  "accumulatedText (applyChunk marked c sp) =
     (case chunkText c of None \<Rightarrow> accumulatedText sp
      | Some d \<Rightarrow> if d = [] then accumulatedText sp else textAfter (accumulatedText sp) d)"
  by (simp add: applyChunk_def updateResult_other_cards updateExecutableCode_other_cards
      updateToolCall_other_cards updateText_accumulatedText)

lemma applyChunk_detectedLanguage:
  "detectedLanguage (applyChunk marked c sp) =
     (case chunkText c of None \<Rightarrow> detectedLanguage sp
      | Some d \<Rightarrow> if d = [] then detectedLanguage sp
                  else languageAfter (detectedLanguage sp) (accumulatedText sp) d)"
  by (simp add: applyChunk_def updateResult_other_cards updateExecutableCode_other_cards
      updateToolCall_other_cards updateText_detectedLanguage)

lemma applyChunk_textCard_total:
  "textCard (applyChunk (\<lambda>s. Inr (md s)) c sp) =
     (case chunkText c of None \<Rightarrow> textCard sp
      | Some d \<Rightarrow> if d = [] then textCard sp else Some (md (textAfter (accumulatedText sp) d)))"
  by (simp add: applyChunk_def updateResult_other_cards updateExecutableCode_other_cards
      updateToolCall_other_cards updateText_textCard_total)

lemma deltas_snoc:
  "deltas (cs @ [c]) =
     deltas cs @ (case chunkText c of None \<Rightarrow> [] | Some d \<Rightarrow> if d = [] then [] else [d])"
  by (simp add: deltas_def List.map_filter_def split: option.splits)

lemma deltas_Nil: "deltas [] = []"
  by (simp add: deltas_def List.map_filter_simps)

lemma applyChunks_accumulatedText:
  "accumulatedText (applyChunks marked cs sp) = foldl textAfter (accumulatedText sp) (deltas cs)"
proof (induction cs rule: rev_induct)
  case Nil
  show ?case by (simp add: applyChunks_Nil deltas_Nil)
next
  case (snoc x xs)
  show ?case
    by (cases "chunkText x")
      (simp_all add: applyChunks_snoc applyChunk_accumulatedText deltas_snoc snoc.IH)
qed

lemma applyChunks_textCard_total:
  "textCard (applyChunks (\<lambda>s. Inr (md s)) cs sp) =
     (if deltas cs = [] then textCard sp
      else Some (md (foldl textAfter (accumulatedText sp) (deltas cs))))"
proof (induction cs rule: rev_induct)
  case Nil
  show ?case by (simp add: applyChunks_Nil deltas_Nil)
next
  case (snoc x xs)
  show ?case
    by (cases "chunkText x")
      (simp_all add: applyChunks_snoc applyChunk_textCard_total deltas_snoc snoc.IH
        applyChunks_accumulatedText)
qed

lemma foldl_textAfter_no_marker:
  "langMatch (acc @ concat ds) = None \<Longrightarrow> foldl textAfter acc ds = acc @ concat ds"
proof (induction ds arbitrary: acc)
  case Nil
  show ?case by simp
next
  case (Cons d ds)
  from Cons.prems have whole: "langMatch ((acc @ d) @ concat ds) = None" by simp
  then have "langMatch (acc @ d) = None" by (rule langMatch_append_None)
  then have step: "textAfter acc d = acc @ d" by (simp add: textAfter_def)
  from whole have "foldl textAfter (acc @ d) ds = (acc @ d) @ concat ds" by (rule Cons.IH)
  with step show ?case by simp
qed

lemma foldl_languageAfter_no_marker:
  "langMatch (accumulatedText sp @ concat (deltas cs)) = None \<Longrightarrow>
     detectedLanguage (applyChunks marked cs sp) = detectedLanguage sp"
proof (induction cs rule: rev_induct)
  case Nil
  show ?case by (simp add: applyChunks_Nil)
next
  case (snoc x xs)
  let ?tail = "case chunkText x of None \<Rightarrow> [] | Some d \<Rightarrow> if d = [] then [] else [d]"
  from snoc.prems have whole:
    "langMatch ((accumulatedText sp @ concat (deltas xs)) @ concat ?tail) = None"
    by (simp add: deltas_snoc)
  then have pre: "langMatch (accumulatedText sp @ concat (deltas xs)) = None"
    by (rule langMatch_append_None)
  then have ih: "detectedLanguage (applyChunks marked xs sp) = detectedLanguage sp"
    by (rule snoc.IH)
  from pre have acc: "accumulatedText (applyChunks marked xs sp) = accumulatedText sp @ concat (deltas xs)"
    by (simp add: applyChunks_accumulatedText foldl_textAfter_no_marker)
  show ?case
  proof (cases "chunkText x")
    case None
    then show ?thesis by (simp add: applyChunks_snoc applyChunk_detectedLanguage ih)
  next
    case (Some d)
    show ?thesis
    proof (cases "d = []")
      case True
      with Some show ?thesis by (simp add: applyChunks_snoc applyChunk_detectedLanguage ih)
    next
      case False
      with Some whole have "langMatch ((accumulatedText sp @ concat (deltas xs)) @ d) = None"
        by simp
      with Some False show ?thesis
        by (simp add: applyChunks_snoc applyChunk_detectedLanguage ih acc languageAfter_def)
    qed
  qed
qed

text \<open>
  C1, as stated, fails: the marker is looked for again after every delta, so two markers that
  arrive in two deltas are both removed, and the text is trimmed each time a marker is
  removed. With the identity as renderer, the text card below shows neither the concatenation
  of the two deltas, nor the concatenation without its first marker, nor the concatenation
  without the line of its first marker.
\<close>

theorem text_card_rendering_counterexample:
  "process Inr
     (uninterrupted [textChunk (''Language: a'' @ [CHR 0x0A] @ ''foo'' @ [CHR 0x0A]),
                     textChunk (''Language: b'' @ [CHR 0x0A] @ ''bar'')])
     (new_StreamProcessor []) =
     Inr \<lparr>modelMessage = [TextCardEl], accumulatedText = ''foo'' @ [CHR 0x0A] @ ''bar'',
          detectedLanguage = ''b'', elementsToHighlight = [],
          textCard = Some (''foo'' @ [CHR 0x0A] @ ''bar''), toolCallCard = None, codeCard = None,
          resultCard = None, highlighted = []\<rparr>
   \<and> spec_marker_removed_once
        ((''Language: a'' @ [CHR 0x0A] @ ''foo'' @ [CHR 0x0A]) @ (''Language: b'' @ [CHR 0x0A] @ ''bar'')) =
       [CHR 0x0A] @ ''foo'' @ [CHR 0x0A] @ ''Language: b'' @ [CHR 0x0A] @ ''bar''
   \<and> ''foo'' @ [CHR 0x0A] @ ''bar'' \<noteq>
       [CHR 0x0A] @ ''foo'' @ [CHR 0x0A] @ ''Language: b'' @ [CHR 0x0A] @ ''bar''
   \<and> ''foo'' @ [CHR 0x0A] @ ''bar'' \<noteq>
       ''foo'' @ [CHR 0x0A] @ ''Language: b'' @ [CHR 0x0A] @ ''bar''
   \<and> ''foo'' @ [CHR 0x0A] @ ''bar'' \<noteq>
       (''Language: a'' @ [CHR 0x0A] @ ''foo'' @ [CHR 0x0A]) @ (''Language: b'' @ [CHR 0x0A] @ ''bar'')"
  by code_simp

text \<open>
  C1, amended. With a renderer that does not throw, the body of the text card after a whole
  stream is the rendering of the accumulated text, and there is no text card when no
  non-empty delta arrived. The accumulated text is built delta by delta: a non-empty delta
  is appended and then, if the text so far contains a marker, the first occurrence of the
  marker is removed and the text is trimmed. When the concatenation of the deltas contains
  no marker, the accumulated text is that concatenation.
\<close>

theorem text_card_rendering:
  "process (\<lambda>s. Inr (md s)) (uninterrupted cs) (new_StreamProcessor mm) =
     Inr (finishProcess (applyChunks (\<lambda>s. Inr (md s)) cs (new_StreamProcessor mm)))
   \<and> textCard (finishProcess (applyChunks (\<lambda>s. Inr (md s)) cs (new_StreamProcessor mm))) =
       (if deltas cs = [] then None else Some (md (foldl textAfter [] (deltas cs))))
   \<and> (langMatch (concat (deltas cs)) = None \<longrightarrow>
        foldl textAfter [] (deltas cs) = concat (deltas cs))"
  using foldl_textAfter_no_marker [of "[]" "deltas cs"]
  by (simp add: process_uninterrupted finishProcess_cards applyChunks_textCard_total
      new_StreamProcessor_cards)

theorem text_card_rendering_witness:
  "langMatch (concat (deltas [textChunk ''Hello '', textChunk [], textChunk ''world''])) = None
   \<and> textCard (finishProcess (applyChunks (\<lambda>s. Inr (rev s))
        [textChunk ''Hello '', textChunk [], textChunk ''world''] (new_StreamProcessor []))) =
       Some (rev ''Hello world'')"
proof -
  have d: "deltas [textChunk ''Hello '', textChunk [], textChunk ''world''] = [''Hello '', ''world'']"
    by code_simp
  have m: "langMatch (concat [''Hello '', ''world'']) = None"
    by code_simp
  show ?thesis
    using text_card_rendering [of rev "[textChunk ''Hello '', textChunk [], textChunk ''world'']" "[]"] m
    by (simp add: d)
qed

text \<open>
  C4, as stated, fails: a marker in a later delta overwrites the language that an earlier
  marker had set, and both markers are stripped.
\<close>

theorem detected_language_counterexample:
  "detectedLanguage (applyChunks Inr [textChunk ''Use Language: JavaScript here. '']
      (new_StreamProcessor [])) = ''javascript''
   \<and> detectedLanguage (applyChunks Inr
        [textChunk ''Use Language: JavaScript here. '', textChunk ''Then Language: Rust.'']
        (new_StreamProcessor [])) = ''rust''
   \<and> accumulatedText (applyChunks Inr
        [textChunk ''Use Language: JavaScript here. '', textChunk ''Then Language: Rust.'']
        (new_StreamProcessor [])) = ''Use  here.Then .''"
  by code_simp

text \<open>
  C4, amended. The detected language starts as \<^verbatim>\<open>python\<close> and only the text channel
  changes it: after a non-empty delta has been appended, if the accumulated text contains a
  marker, the language becomes the lower-cased name of the first marker, and that marker is
  stripped from the accumulated text, which is then trimmed; otherwise both are as before
  but for the appended delta. The tool-call, code and result channels and the final pass
  leave the language alone, and it is still \<^verbatim>\<open>python\<close> at the end of a stream whose
  deltas, concatenated, contain no marker.
\<close>

theorem detected_language_updates:
  "detectedLanguage (new_StreamProcessor mm) = ''python''
   \<and> detectedLanguage (updateToolCall calls sp) = detectedLanguage sp
   \<and> detectedLanguage (updateExecutableCode ec sp) = detectedLanguage sp
   \<and> detectedLanguage (updateResult r sp) = detectedLanguage sp
   \<and> detectedLanguage (finishProcess sp) = detectedLanguage sp
   \<and> detectedLanguage (snd (updateText marked t sp)) =
       (case t of
          None \<Rightarrow> detectedLanguage sp
        | Some d \<Rightarrow>
            if d = [] then detectedLanguage sp
            else (case langMatch (accumulatedText sp @ d) of
                    None \<Rightarrow> detectedLanguage sp
                  | Some (m0, m1) \<Rightarrow> toLowerCase m1))
   \<and> accumulatedText (snd (updateText marked t sp)) =
       (case t of
          None \<Rightarrow> accumulatedText sp
        | Some d \<Rightarrow>
            if d = [] then accumulatedText sp
            else (case langMatch (accumulatedText sp @ d) of
                    None \<Rightarrow> accumulatedText sp @ d
                  | Some (m0, m1) \<Rightarrow> trim (replaceWithEmpty m0 (accumulatedText sp @ d))))
   \<and> (langMatch (concat (deltas cs)) = None \<longrightarrow>
        detectedLanguage (finishProcess (applyChunks marked cs (new_StreamProcessor mm))) = ''python'')"
  using foldl_languageAfter_no_marker [of "new_StreamProcessor mm" cs marked]
  by (cases t)
    (simp_all add: new_StreamProcessor_cards updateToolCall_other_cards
      updateExecutableCode_other_cards updateResult_other_cards finishProcess_cards
      updateText_detectedLanguage updateText_accumulatedText languageAfter_def textAfter_def)

theorem detected_language_updates_witness:
  "langMatch (concat (deltas [textChunk ''Hello '', textChunk ''world''])) = None
   \<and> detectedLanguage (finishProcess (applyChunks Inr [textChunk ''Hello '', textChunk ''world'']
        (new_StreamProcessor []))) = ''python''
   \<and> detectedLanguage (snd (updateText Inr (Some ''Language: Go'') (new_StreamProcessor []))) = ''go''"
proof -
  have d: "deltas [textChunk ''Hello '', textChunk ''world''] = [''Hello '', ''world'']"
    by code_simp
  have m: "langMatch (concat [''Hello '', ''world'']) = None"
    by code_simp
  have g: "langMatch (accumulatedText (new_StreamProcessor []) @ ''Language: Go'') = Some (''Language: Go'', ''Go'')"
    by code_simp
  have l: "toLowerCase ''Go'' = ''go''"
    by code_simp
  show ?thesis
    using detected_language_updates [of "[]" None "new_StreamProcessor []" None None Inr
        "Some ''Language: Go''" "[textChunk ''Hello '', textChunk ''world'']"] m
    by (simp add: d g l)
qed

section \<open>Failures\<close>

lemma replaceBracketed_before_bracket:
  "CHR ''['' \<notin> set pre \<Longrightarrow> replaceBracketed 0 (pre @ s) = pre @ replaceBracketed 0 s"
  by (induction pre) auto

lemma replaceBracketed_skip:
  "n \<le> length s \<Longrightarrow> replaceBracketed n s = replaceBracketed 0 (drop n s)"
proof (induction n arbitrary: s)
  case 0
  show ?case by simp
next
  case (Suc n)
  then show ?case by (cases s) auto
qed

lemma closing_bracket_not_space: "\<not> isWhiteSpace CHR '']''"
  by (simp add: isWhiteSpace_def charCode_def)

lemma lazyBracket_first:
  "\<forall>c\<in>set k. \<not> isLineTerminator c \<Longrightarrow> \<not> closesEarlier k \<Longrightarrow> isWhiteSpace w \<Longrightarrow>
     lazyBracket (k @ CHR '']'' # w # r) = Some (length k + 2)"
proof (induction k)
  case Nil
  then show ?case by simp
next
  case (Cons c k)
  show ?case
  proof (cases k)
    case Nil
    with Cons.prems show ?thesis by (simp add: closing_bracket_not_space)
  next
    case (Cons d ds)
    with Cons.prems have early: "\<not> (c = CHR '']'' \<and> isWhiteSpace d)" "\<not> closesEarlier k"
      by auto
    from Cons.prems have lt: "\<not> isLineTerminator c" "\<forall>c\<in>set k. \<not> isLineTerminator c"
      by auto
    have ih: "lazyBracket (k @ CHR '']'' # w # r) = Some (length k + 2)"
      using Cons.IH lt(2) early(2) Cons.prems(3) by blast
    have "lazyBracket (c # d # (ds @ CHR '']'' # w # r)) =
        map_option Suc (lazyBracket (d # (ds @ CHR '']'' # w # r)))"
      using early(1) lt(1) by auto
    with ih Cons show ?thesis by simp
  qed
qed

lemma lazyBracket_complete:
  "lazyBracket s = Some n \<Longrightarrow>
     \<exists>k w r. s = k @ CHR '']'' # w # r \<and> n = length k + 2 \<and> (\<forall>c\<in>set k. \<not> isLineTerminator c)
        \<and> \<not> closesEarlier k \<and> isWhiteSpace w"
proof (induction s arbitrary: n rule: lazyBracket.induct)
  case 1
  then show ?case by simp
next
  case (2 c)
  then show ?case by simp
next
  case (3 c d cs)
  show ?case
  proof (cases "c = CHR '']'' \<and> isWhiteSpace d")
    case True
    with "3.prems" have "n = 2" by simp
    with True have "c # d # cs = [] @ CHR '']'' # d # cs \<and> n = length ([] :: string) + 2
        \<and> (\<forall>c\<in>set ([] :: string). \<not> isLineTerminator c) \<and> \<not> closesEarlier [] \<and> isWhiteSpace d"
      by simp
    then show ?thesis by blast
  next
    case False
    with "3.prems" have lt: "\<not> isLineTerminator c"
      by (auto split: if_splits)
    with False "3.prems" obtain n' where n': "lazyBracket (d # cs) = Some n'" "n = Suc n'"
      by (auto split: if_splits)
    from "3.IH" [OF False lt n'(1)] obtain k w r where
      d: "d # cs = k @ CHR '']'' # w # r" and len: "n' = length k + 2"
      and nolt: "\<forall>c\<in>set k. \<not> isLineTerminator c" and first: "\<not> closesEarlier k"
      and ws: "isWhiteSpace w"
      by blast
    have "\<not> closesEarlier (c # k)"
    proof (cases k)
      case Nil
      then show ?thesis by simp
    next
      case (Cons e es)
      with d have "e = d" by simp
      with Cons False first show ?thesis by auto
    qed
    moreover from d have "c # d # cs = (c # k) @ CHR '']'' # w # r" by simp
    moreover from len n'(2) have "n = length (c # k) + 2" by simp
    moreover from lt nolt have "\<forall>x\<in>set (c # k). \<not> isLineTerminator x" by simp
    ultimately show ?thesis using ws by blast
  qed
qed

lemma lazyBracket_exists:
  "\<forall>c\<in>set k. \<not> isLineTerminator c \<Longrightarrow> isWhiteSpace w \<Longrightarrow>
     lazyBracket (k @ CHR '']'' # w # r) \<noteq> None"
proof (induction k)
  case Nil
  then show ?case by simp
next
  case (Cons c k)
  then have ih: "lazyBracket (k @ CHR '']'' # w # r) \<noteq> None" by simp
  obtain d ds where d: "k @ CHR '']'' # w # r = d # ds"
    by (cases k) auto
  from Cons.prems have "\<not> isLineTerminator c" by simp
  then have "lazyBracket (c # d # ds) \<noteq> None"
    using ih d by auto
  with d show ?case by simp
qed

lemma replaceBracketed_match:
  assumes "\<forall>c\<in>set k. \<not> isLineTerminator c" and "\<not> closesEarlier k" and "isWhiteSpace w"
  shows "replaceBracketed 0 (CHR ''['' # k @ CHR '']'' # w # r) = replaceBracketed 0 r"
proof -
  have "replaceBracketed 0 (CHR ''['' # k @ CHR '']'' # w # r) =
      replaceBracketed (length k + 2) (k @ CHR '']'' # w # r)"
    using lazyBracket_first [OF assms, of r] by simp
  also have "\<dots> = replaceBracketed 0 (drop (length k + 2) (k @ CHR '']'' # w # r))"
    by (rule replaceBracketed_skip) simp
  also have "\<dots> = replaceBracketed 0 r" by simp
  finally show ?thesis .
qed

lemma replaceBracketed_match_exists:
  assumes "\<exists>k w r. s = k @ CHR '']'' # w # r \<and> (\<forall>c\<in>set k. \<not> isLineTerminator c) \<and> isWhiteSpace w"
  shows "\<exists>k w r. s = k @ CHR '']'' # w # r \<and> (\<forall>c\<in>set k. \<not> isLineTerminator c)
      \<and> \<not> closesEarlier k \<and> isWhiteSpace w
      \<and> replaceBracketed 0 (CHR ''['' # s) = replaceBracketed 0 r"
proof -
  from assms have "lazyBracket s \<noteq> None"
    using lazyBracket_exists by blast
  then obtain n where "lazyBracket s = Some n" by blast
  from lazyBracket_complete [OF this] obtain k w r where
    d: "s = k @ CHR '']'' # w # r" and nolt: "\<forall>c\<in>set k. \<not> isLineTerminator c"
    and first: "\<not> closesEarlier k" and ws: "isWhiteSpace w"
    by blast
  from replaceBracketed_match [OF nolt first ws, of r] d
  have "replaceBracketed 0 (CHR ''['' # s) = replaceBracketed 0 r" by simp
  with d nolt first ws show ?thesis by blast
qed

lemma replaceBracketed_no_match:
  assumes "\<not> (\<exists>k w r. s = k @ CHR '']'' # w # r \<and> (\<forall>c\<in>set k. \<not> isLineTerminator c) \<and> isWhiteSpace w)"
  shows "replaceBracketed 0 (CHR ''['' # s) = CHR ''['' # replaceBracketed 0 s"
proof -
  have "lazyBracket s = None"
  proof (cases "lazyBracket s")
    case None
    then show ?thesis .
  next
    case (Some n)
    from lazyBracket_complete [OF this] assms show ?thesis by blast
  qed
  then show ?thesis by simp
qed

lemma readChunks_failure:
  "readChunks marked (map (Pair True) cs) (Some e) sp = Inl e"
  by (induction cs arbitrary: sp) simp_all

lemma handleFormSubmit_flags:
  "isGenerating (handleFormSubmit marked response) = False"
  "stopHidden (handleFormSubmit marked response) = True"
  by (simp_all add: handleFormSubmit_def Let_def split: sum.splits js_error.splits)

text \<open>
  C5, as stated, fails: the pattern is applied to the whole message, so a bracketed token in
  the middle of the message is removed with the white-space character after it; a leading
  bracketed prefix that no white space follows is kept when no closing bracket followed by
  white space comes later, and is removed together with the text up to such a closing
  bracket when one does.
\<close>

theorem error_card_counterexample:
  "handleFormSubmit Inr
     (Inr \<lparr>items = [(True, textChunk ''partial'')],
           failure = Some (Error (Some ''Upload [part 2] failed''))\<rparr>) =
     \<lparr>isGenerating = False, stopHidden = True,
      messageChildren = [ErrorCardEl ''Upload failed''], processor = None\<rparr>
   \<and> errorBody (Some ''[503]Service unavailable'') = ''[503]Service unavailable''
   \<and> errorBody (Some ''[503]Service [x] unavailable'') = ''unavailable''"
  by code_simp

text \<open>
  C5, amended. When the turn throws a value other than \<^verbatim>\<open>undefined\<close> and \<^verbatim>\<open>null\<close>, be it
  the request that fails or the stream after any number of applied chunks, the message
  element holds exactly one error card and nothing of the partial cards; the generation flag
  is cleared and the stop control is hidden whatever the outcome of the turn. The body of
  the card is set, as unescaped markup, to the message of the error, or to a fixed text when
  the error has no message or an empty one, without the matches of the pattern, which are
  found from the left: the text before an opening bracket is kept; at an opening bracket, if
  a closing bracket directly followed by a white-space character comes after it with no line
  terminator in between, the text from the opening bracket to the first such closing bracket
  and the white-space character after it is removed, and the search goes on behind it;
  otherwise the opening bracket is kept and the search goes on with the next character.
\<close>

theorem error_card_on_failure:
  "handleFormSubmit marked (Inr \<lparr>items = map (Pair True) cs, failure = Some (Error message)\<rparr>) =
     \<lparr>isGenerating = False, stopHidden = True,
      messageChildren = [ErrorCardEl (errorBody message)], processor = None\<rparr>
   \<and> handleFormSubmit marked (Inl (Error message)) =
       \<lparr>isGenerating = False, stopHidden = True,
        messageChildren = [ErrorCardEl (errorBody message)], processor = None\<rparr>
   \<and> isGenerating (handleFormSubmit marked response) = False
   \<and> stopHidden (handleFormSubmit marked response) = True
   \<and> errorBody None = ''An unknown error occurred.''
   \<and> errorBody (Some []) = ''An unknown error occurred.''
   \<and> (m \<noteq> [] \<longrightarrow> errorBody (Some m) = replaceBracketed 0 m)
   \<and> replaceBracketed 0 [] = []
   \<and> (CHR ''['' \<notin> set pre \<longrightarrow> replaceBracketed 0 (pre @ s) = pre @ replaceBracketed 0 s)
   \<and> ((\<forall>c\<in>set k. \<not> isLineTerminator c) \<and> \<not> closesEarlier k \<and> isWhiteSpace w \<longrightarrow>
        replaceBracketed 0 (CHR ''['' # k @ CHR '']'' # w # r) = replaceBracketed 0 r)
   \<and> ((\<exists>k w r. s = k @ CHR '']'' # w # r \<and> (\<forall>c\<in>set k. \<not> isLineTerminator c) \<and> isWhiteSpace w) \<longrightarrow>
        (\<exists>k w r. s = k @ CHR '']'' # w # r \<and> (\<forall>c\<in>set k. \<not> isLineTerminator c)
           \<and> \<not> closesEarlier k \<and> isWhiteSpace w
           \<and> replaceBracketed 0 (CHR ''['' # s) = replaceBracketed 0 r))
   \<and> (\<not> (\<exists>k w r. s = k @ CHR '']'' # w # r \<and> (\<forall>c\<in>set k. \<not> isLineTerminator c) \<and> isWhiteSpace w) \<longrightarrow>
        replaceBracketed 0 (CHR ''['' # s) = CHR ''['' # replaceBracketed 0 s)"
proof -
  have a: "errorBody None = ''An unknown error occurred.''"
    "errorBody (Some []) = ''An unknown error occurred.''"
    by (simp_all add: errorBody_def)
  have b: "m \<noteq> [] \<longrightarrow> errorBody (Some m) = replaceBracketed 0 m"
    by (simp add: errorBody_def)
  have d: "handleFormSubmit marked (Inr \<lparr>items = map (Pair True) cs, failure = Some (Error message)\<rparr>) =
     \<lparr>isGenerating = False, stopHidden = True,
      messageChildren = [ErrorCardEl (errorBody message)], processor = None\<rparr>"
    by (simp add: handleFormSubmit_def process_def readChunks_failure)
  have e: "handleFormSubmit marked (Inl (Error message)) =
       \<lparr>isGenerating = False, stopHidden = True,
        messageChildren = [ErrorCardEl (errorBody message)], processor = None\<rparr>"
    by (simp add: handleFormSubmit_def)
  have f: "replaceBracketed 0 [] = []" by simp
  show ?thesis
    using a b d e f handleFormSubmit_flags [of marked response]
      replaceBracketed_before_bracket [of pre s] replaceBracketed_match [of k w r]
      replaceBracketed_match_exists [of s] replaceBracketed_no_match [of s]
    by blast
qed

theorem error_card_on_failure_witness:
  "list_all (\<lambda>c. \<not> isLineTerminator c) ''503]Service [x'' \<and> \<not> closesEarlier ''503]Service [x''
   \<and> isWhiteSpace CHR '' ''
   \<and> replaceBracketed 0 ''[503]Service [x] unavailable'' = replaceBracketed 0 ''unavailable''
   \<and> replaceBracketed 0 (''Upload '' @ ''[part 2] failed'') =
       ''Upload '' @ replaceBracketed 0 ''[part 2] failed''
   \<and> replaceBracketed 0 ''[503]Service unavailable'' =
       CHR ''['' # replaceBracketed 0 ''503]Service unavailable''
   \<and> handleFormSubmit Inr
        (Inr \<lparr>items = map (Pair True) [textChunk ''partial''],
              failure = Some (Error (Some ''[503] Service unavailable''))\<rparr>) =
       \<lparr>isGenerating = False, stopHidden = True,
        messageChildren = [ErrorCardEl (errorBody (Some ''[503] Service unavailable''))],
        processor = None\<rparr>"
proof -
  have a: "list_all (\<lambda>c. \<not> isLineTerminator c) ''503]Service [x''"
    "\<not> closesEarlier ''503]Service [x''" "isWhiteSpace CHR '' ''"
    "CHR ''['' \<notin> set ''Upload ''"
    by code_simp+
  have n: "lazyBracket ''503]Service unavailable'' = None"
    by code_simp
  have no: "\<not> (\<exists>k w r. ''503]Service unavailable'' = k @ CHR '']'' # w # r
      \<and> (\<forall>c\<in>set k. \<not> isLineTerminator c) \<and> isWhiteSpace w)"
    using n lazyBracket_exists by metis
  have first: "replaceBracketed 0 ''[503]Service [x] unavailable'' = replaceBracketed 0 ''unavailable''"
    using a error_card_on_failure [where k = "''503]Service [x''" and w = "CHR '' ''"
        and r = "''unavailable''"]
    by (simp add: list_all_iff)
  have second: "replaceBracketed 0 (''Upload '' @ ''[part 2] failed'') =
       ''Upload '' @ replaceBracketed 0 ''[part 2] failed''"
    using a error_card_on_failure [where pre = "''Upload ''" and s = "''[part 2] failed''"]
    by blast
  have third: "replaceBracketed 0 ''[503]Service unavailable'' =
       CHR ''['' # replaceBracketed 0 ''503]Service unavailable''"
    using no error_card_on_failure [where s = "''503]Service unavailable''"]
    by blast
  have fourth: "handleFormSubmit Inr
        (Inr \<lparr>items = map (Pair True) [textChunk ''partial''],
              failure = Some (Error (Some ''[503] Service unavailable''))\<rparr>) =
       \<lparr>isGenerating = False, stopHidden = True,
        messageChildren = [ErrorCardEl (errorBody (Some ''[503] Service unavailable''))],
        processor = None\<rparr>"
    using error_card_on_failure [where marked = Inr and cs = "[textChunk ''partial'']"
        and message = "Some ''[503] Service unavailable''"]
    by blast
  from a first second third fourth show ?thesis by blast
qed

lemma process_without_stream_failure:
  "failure responseStream = None \<Longrightarrow> \<exists>sp'. process marked responseStream sp = Inr sp'"
proof -
  assume f: "failure responseStream = None"
  have "\<exists>sp'. readChunks marked its None sp = Inr sp'" for its
    by (induction its arbitrary: sp) auto
  then obtain sp' where "readChunks marked (items responseStream) None sp = Inr sp'"
    by blast
  with f show ?thesis
    by (simp add: process_def)
qed

text \<open>
  C9 does not hold of the code. \<open>updateText\<close> is asynchronous and \<open>process\<close> calls it without
  awaiting it, so a renderer that throws rejects a promise that nothing observes: the loop
  goes on, \<open>process\<close> returns normally, the handler of the turn is not entered and no error
  card is shown; the text card is left with an empty body.
\<close>

theorem render_failure_not_surfaced:
  "fst (updateText failingMarked (Some ''hello'') (new_StreamProcessor [])) =
     Rejected (Error (Some ''render failed''))
   \<and> handleFormSubmit failingMarked (Inr (uninterrupted [textChunk ''hello''])) =
       \<lparr>isGenerating = False, stopHidden = True, messageChildren = [TextCardEl],
        processor =
          Some \<lparr>modelMessage = [TextCardEl], accumulatedText = ''hello'',
                detectedLanguage = ''python'', elementsToHighlight = [], textCard = Some [],
                toolCallCard = None, codeCard = None, resultCard = None, highlighted = []\<rparr>\<rparr>"
  by code_simp

end
